theory Spec2Isabelle
  imports Complex_Main "HOL-Library.Sublist" "HOL-Library.Word"
begin

section \<open>Python string operations used by the program\<close>

text \<open>
  Strings are lists of characters.  A \<^typ>\<open>char\<close> stands for the Unicode code point
  with the same number, so the model covers the Python strings whose code points are
  below 256 (ASCII and the Latin-1 supplement).  The two character tables below are
  those of Python's \<^verbatim>\<open>str.isalnum\<close> and \<^verbatim>\<open>str.lower\<close> on that range.
\<close>

definition cp :: "char \<Rightarrow> nat" where
  "cp c = of_char c"

definition py_isalnum :: "char \<Rightarrow> bool" where
  "py_isalnum c \<longleftrightarrow>
     (let n = cp c in
        (48 \<le> n \<and> n \<le> 57) \<or> (65 \<le> n \<and> n \<le> 90) \<or> (97 \<le> n \<and> n \<le> 122) \<or>
        n = 170 \<or> n = 178 \<or> n = 179 \<or> n = 181 \<or> n = 185 \<or> n = 186 \<or>
        n = 188 \<or> n = 189 \<or> n = 190 \<or>
        (192 \<le> n \<and> n \<noteq> 215 \<and> n \<noteq> 247))"

definition py_lower_char :: "char \<Rightarrow> char" where
  "py_lower_char c =
     (let n = cp c in
        if (65 \<le> n \<and> n \<le> 90) \<or> (192 \<le> n \<and> n \<le> 222 \<and> n \<noteq> 215)
        then char_of (n + 32) else c)"

definition py_lower :: "string \<Rightarrow> string" where
  "py_lower s = map py_lower_char s"

text \<open>\<^verbatim>\<open>s.replace(a, b)\<close> for single characters \<open>a\<close> and \<open>b\<close>.\<close>

definition py_replace_char :: "char \<Rightarrow> char \<Rightarrow> string \<Rightarrow> string" where
  "py_replace_char a b s = map (\<lambda>c. if c = a then b else c) s"

text \<open>\<^verbatim>\<open>s.lstrip(cs)\<close>, \<^verbatim>\<open>s.rstrip(cs)\<close> and \<^verbatim>\<open>s.strip(cs)\<close>.\<close>

definition py_lstrip :: "string \<Rightarrow> string \<Rightarrow> string" where
  "py_lstrip cs s = dropWhile (\<lambda>c. c \<in> set cs) s"

definition py_rstrip :: "string \<Rightarrow> string \<Rightarrow> string" where
  "py_rstrip cs s = rev (dropWhile (\<lambda>c. c \<in> set cs) (rev s))"

definition py_strip :: "string \<Rightarrow> string \<Rightarrow> string" where
  "py_strip cs s = py_rstrip cs (py_lstrip cs s)"

section \<open>Filename sanitization (web_processor.py, lines 247--256)\<close>

definition sanitize :: "string \<Rightarrow> string" where
  "sanitize filename_base =
     (let filename = py_lower filename_base;
          filename = py_replace_char CHR '' '' CHR ''_'' filename;
          filename = filter (\<lambda>c. py_isalnum c \<or> c = CHR ''_'' \<or> c = CHR ''-'') filename;
          filename = py_strip ''_-'' filename
      in if filename = [] then ''untitled_page'' else filename)"

text \<open>\<^verbatim>\<open>s.split(d)\<close> for a single character \<open>d\<close>, and \<^verbatim>\<open>sep.join(xs)\<close>.\<close>

fun py_split :: "char \<Rightarrow> string \<Rightarrow> string list" where
  "py_split d [] = [[]]"
| "py_split d (c # cs) =
     (if c = d then [] # py_split d cs
      else (case py_split d cs of [] \<Rightarrow> [[c]] | w # ws \<Rightarrow> (c # w) # ws))"

fun py_join :: "string \<Rightarrow> string list \<Rightarrow> string" where
  "py_join sep [] = []"
| "py_join sep [x] = x"
| "py_join sep (x # y # ys) = x @ sep @ py_join sep (y # ys)"

text \<open>
  \<^verbatim>\<open>s.split(d, 1)\<close> when \<open>d\<close> occurs in \<open>s\<close>: the text before the first occurrence
  and the text after it.
\<close>

definition before_first :: "char \<Rightarrow> string \<Rightarrow> string" where
  "before_first d s = takeWhile (\<lambda>c. c \<noteq> d) s"

definition after_first :: "char \<Rightarrow> string \<Rightarrow> string" where
  "after_first d s = tl (dropWhile (\<lambda>c. c \<noteq> d) s)"

text \<open>\<^verbatim>\<open>s[:i]\<close> and \<^verbatim>\<open>s[i:]\<close> for \<^verbatim>\<open>i = s.rfind('/') + 1\<close>.\<close>

definition upto_last_slash :: "string \<Rightarrow> string" where
  "upto_last_slash s = rev (dropWhile (\<lambda>c. c \<noteq> CHR ''/'') (rev s))"

definition after_last_slash :: "string \<Rightarrow> string" where
  "after_last_slash s = rev (takeWhile (\<lambda>c. c \<noteq> CHR ''/'') (rev s))"

definition startswith :: "string \<Rightarrow> string \<Rightarrow> bool" where
  "startswith s p = prefix p s"

definition endswith :: "string \<Rightarrow> string \<Rightarrow> bool" where
  "endswith s p = suffix p s"

section \<open>Errors\<close>

text \<open>
  The exceptions of the model: \<^verbatim>\<open>ValueError\<close> from the URL functions, from
  \<^verbatim>\<open>os.path.relpath\<close> and from \<^verbatim>\<open>time.sleep\<close>, \<^verbatim>\<open>LookupError\<close> and
  \<^verbatim>\<open>UnicodeDecodeError\<close> from \<^verbatim>\<open>bytes.decode\<close>, and \<^verbatim>\<open>OSError\<close> from
  \<^verbatim>\<open>os.makedirs\<close>.
\<close>

datatype error = ValueError | LookupError | UnicodeDecodeError | OSError

section \<open>The functions of urllib.parse used by the program (CPython 3.11)\<close>

record parse_result =
  scheme :: string
  netloc :: string
  path :: string
  params :: string
  query :: string
  fragment :: string

definition uses_relative :: "string list" where
  "uses_relative = ['''', ''ftp'', ''http'', ''gopher'', ''nntp'', ''imap'',
     ''wais'', ''file'', ''https'', ''shttp'', ''mms'',
     ''prospero'', ''rtsp'', ''rtsps'', ''rtspu'', ''sftp'',
     ''svn'', ''svn+ssh'', ''ws'', ''wss'']"

definition uses_netloc :: "string list" where
  "uses_netloc = ['''', ''ftp'', ''http'', ''gopher'', ''nntp'', ''telnet'',
     ''imap'', ''wais'', ''file'', ''mms'', ''https'', ''shttp'',
     ''snews'', ''prospero'', ''rtsp'', ''rtsps'', ''rtspu'', ''rsync'',
     ''svn'', ''svn+ssh'', ''sftp'', ''nfs'', ''git'', ''git+ssh'',
     ''ws'', ''wss'']"

definition uses_params :: "string list" where
  "uses_params = ['''', ''ftp'', ''hdl'', ''prospero'', ''http'', ''imap'',
     ''https'', ''shttp'', ''rtsp'', ''rtsps'', ''rtspu'', ''sip'',
     ''sips'', ''mms'', ''sftp'', ''tel'']"

definition ascii_alpha :: "char \<Rightarrow> bool" where
  "ascii_alpha c \<longleftrightarrow> (let n = cp c in (65 \<le> n \<and> n \<le> 90) \<or> (97 \<le> n \<and> n \<le> 122))"

definition scheme_char :: "char \<Rightarrow> bool" where
  "scheme_char c \<longleftrightarrow>
     (let n = cp c in (65 \<le> n \<and> n \<le> 90) \<or> (97 \<le> n \<and> n \<le> 122) \<or> (48 \<le> n \<and> n \<le> 57))
     \<or> c = CHR ''+'' \<or> c = CHR ''-'' \<or> c = CHR ''.''"

text \<open>The characters U+0000 to U+0020 that \<^verbatim>\<open>urlsplit\<close> strips.\<close>

definition c0_or_space :: "char \<Rightarrow> bool" where
  "c0_or_space c \<longleftrightarrow> cp c \<le> 32"

definition unsafe_byte :: "char \<Rightarrow> bool" where
  "unsafe_byte c \<longleftrightarrow> cp c = 9 \<or> cp c = 13 \<or> cp c = 10"

text \<open>
  \<^verbatim>\<open>urlsplit(url, scheme)\<close>.  Its check of a bracketed host calls the
  \<^verbatim>\<open>ipaddress\<close> module; the verdict of that module on a host is the parameter
  \<open>host_ok\<close>.  The NFKC check of the host never fails on code points below 256.
  The result lacks \<open>params\<close>, which \<^verbatim>\<open>urlparse\<close> fills in.
\<close>

definition urlsplit :: "(string \<Rightarrow> bool) \<Rightarrow> string \<Rightarrow> string \<Rightarrow> error + parse_result" where
  "urlsplit host_ok url0 scheme0 =
     (let url = filter (\<lambda>c. \<not> unsafe_byte c) (dropWhile c0_or_space url0);
          scheme1 = filter (\<lambda>c. \<not> unsafe_byte c)
                      (rev (dropWhile c0_or_space (rev (dropWhile c0_or_space scheme0))));
          pre = before_first CHR '':'' url;
          has_scheme = (CHR '':'' \<in> set url \<and> pre \<noteq> [] \<and> ascii_alpha (hd url)
                         \<and> list_all scheme_char pre);
          scheme2 = (if has_scheme then py_lower pre else scheme1);
          url = (if has_scheme then after_first CHR '':'' url else url);
          has_netloc = (take 2 url = ''//'');
          rest0 = drop 2 url;
          netloc1 = (if has_netloc
                     then takeWhile (\<lambda>c. c \<noteq> CHR ''/'' \<and> c \<noteq> CHR ''?'' \<and> c \<noteq> CHR ''#'') rest0
                     else []);
          url = (if has_netloc
                 then dropWhile (\<lambda>c. c \<noteq> CHR ''/'' \<and> c \<noteq> CHR ''?'' \<and> c \<noteq> CHR ''#'') rest0
                 else url);
          lb = (CHR ''['' \<in> set netloc1);
          rb = (CHR '']'' \<in> set netloc1)
      in if has_netloc \<and> ((lb \<and> \<not> rb) \<or> (rb \<and> \<not> lb)) then Inl ValueError
         else if has_netloc \<and> lb \<and> rb \<and>
                 \<not> host_ok (before_first CHR '']'' (after_first CHR ''['' netloc1))
         then Inl ValueError
         else
           (let fragment1 = (if CHR ''#'' \<in> set url then after_first CHR ''#'' url else []);
                url = (if CHR ''#'' \<in> set url then before_first CHR ''#'' url else url);
                query1 = (if CHR ''?'' \<in> set url then after_first CHR ''?'' url else []);
                url = (if CHR ''?'' \<in> set url then before_first CHR ''?'' url else url)
            in Inr \<lparr>scheme = scheme2, netloc = netloc1, path = url, params = [],
                     query = query1, fragment = fragment1\<rparr>))"

text \<open>\<^verbatim>\<open>_splitparams\<close>, called only when \<open>;\<close> occurs in the path.\<close>

definition splitparams :: "string \<Rightarrow> string \<times> string" where
  "splitparams url =
     (if CHR ''/'' \<in> set url
      then (if CHR '';'' \<in> set (after_last_slash url)
            then (upto_last_slash url @ before_first CHR '';'' (after_last_slash url),
                  after_first CHR '';'' (after_last_slash url))
            else (url, []))
      else (before_first CHR '';'' url, after_first CHR '';'' url))"

definition urlparse :: "(string \<Rightarrow> bool) \<Rightarrow> string \<Rightarrow> string \<Rightarrow> error + parse_result" where
  "urlparse host_ok url scheme0 =
     (case urlsplit host_ok url scheme0 of
        Inl e \<Rightarrow> Inl e
      | Inr r \<Rightarrow>
          if scheme r \<in> set uses_params \<and> CHR '';'' \<in> set (path r)
          then Inr (r\<lparr>path := fst (splitparams (path r)), params := snd (splitparams (path r))\<rparr>)
          else Inr r)"

definition urlunsplit :: "string \<Rightarrow> string \<Rightarrow> string \<Rightarrow> string \<Rightarrow> string \<Rightarrow> string" where
  "urlunsplit sch nl url0 q f =
     (let url = (if nl \<noteq> [] \<or> (sch \<noteq> [] \<and> sch \<in> set uses_netloc) \<or> take 2 url0 = ''//''
                 then ''//'' @ nl @ (if url0 \<noteq> [] \<and> take 1 url0 \<noteq> ''/'' then ''/'' @ url0 else url0)
                 else url0);
          url = (if sch \<noteq> [] then sch @ '':'' @ url else url);
          url = (if q \<noteq> [] then url @ ''?'' @ q else url);
          url = (if f \<noteq> [] then url @ ''#'' @ f else url)
      in url)"

definition urlunparse :: "parse_result \<Rightarrow> string" where
  "urlunparse r =
     urlunsplit (scheme r) (netloc r)
       (if params r \<noteq> [] then path r @ '';'' @ params r else path r) (query r) (fragment r)"

text \<open>
  The loop of \<^verbatim>\<open>urljoin\<close> that resolves the segments \<open>.\<close> and \<open>..\<close>; the
  accumulator is \<^verbatim>\<open>resolved_path\<close>, and popping from the empty list is ignored.
\<close>

fun resolve_segments :: "string list \<Rightarrow> string list \<Rightarrow> string list" where
  "resolve_segments resolved [] = resolved"
| "resolve_segments resolved (seg # segs) =
     (if seg = ''..'' then resolve_segments (butlast resolved) segs
      else if seg = ''.'' then resolve_segments resolved segs
      else resolve_segments (resolved @ [seg]) segs)"

text \<open>\<^verbatim>\<open>segments[1:-1] = filter(None, segments[1:-1])\<close>.\<close>

definition filter_middle :: "string list \<Rightarrow> string list" where
  "filter_middle segments =
     (case segments of
        [] \<Rightarrow> []
      | [x] \<Rightarrow> [x]
      | x # rest \<Rightarrow> x # filter (\<lambda>s. s \<noteq> []) (butlast rest) @ [last rest])"

definition urljoin :: "(string \<Rightarrow> bool) \<Rightarrow> string \<Rightarrow> string \<Rightarrow> error + string" where
  "urljoin host_ok base url =
     (if base = [] then Inr url
      else if url = [] then Inr base
      else
        (case urlparse host_ok base [] of
           Inl e \<Rightarrow> Inl e
         | Inr b \<Rightarrow>
            (case urlparse host_ok url (scheme b) of
               Inl e \<Rightarrow> Inl e
             | Inr u \<Rightarrow>
                if scheme u \<noteq> scheme b \<or> scheme u \<notin> set uses_relative then Inr url
                else if scheme u \<in> set uses_netloc \<and> netloc u \<noteq> [] then Inr (urlunparse u)
                else
                  (let nl = (if scheme u \<in> set uses_netloc then netloc b else netloc u)
                   in if path u = [] \<and> params u = []
                      then Inr (urlunparse (u\<lparr>netloc := nl, path := path b, params := params b,
                                   query := (if query u = [] then query b else query u)\<rparr>))
                      else
                        (let base_parts0 = py_split CHR ''/'' (path b);
                             base_parts = (if last base_parts0 \<noteq> [] then butlast base_parts0
                                           else base_parts0);
                             segments = (if take 1 (path u) = ''/'' then py_split CHR ''/'' (path u)
                                         else filter_middle (base_parts @ py_split CHR ''/'' (path u)));
                             resolved0 = resolve_segments [] segments;
                             resolved_path = (if last segments = ''.'' \<or> last segments = ''..''
                                              then resolved0 @ [[]] else resolved0);
                             joined = py_join ''/'' resolved_path
                         in Inr (urlunparse (u\<lparr>netloc := nl,
                                   path := (if joined = [] then ''/'' else joined)\<rparr>)))))))"

section \<open>The functions of posixpath used by the program\<close>

definition dirname :: "string \<Rightarrow> string" where
  "dirname p =
     (let head = upto_last_slash p
      in if head \<noteq> [] \<and> head \<noteq> replicate (length head) CHR ''/''
         then py_rstrip ''/'' head else head)"

definition basename :: "string \<Rightarrow> string" where
  "basename p = after_last_slash p"

definition isabs :: "string \<Rightarrow> bool" where
  "isabs s = startswith s ''/''"

text \<open>\<^verbatim>\<open>os.path.join(a, b)\<close> and its variadic form.\<close>

definition path_join :: "string \<Rightarrow> string \<Rightarrow> string" where
  "path_join a b =
     (if startswith b ''/'' then b
      else if a = [] \<or> endswith a ''/'' then a @ b
      else a @ ''/'' @ b)"

definition path_join_list :: "string \<Rightarrow> string list \<Rightarrow> string" where
  "path_join_list a ps = foldl path_join a ps"

text \<open>The loop of \<^verbatim>\<open>normpath\<close> over the components; the accumulator is \<^verbatim>\<open>new_comps\<close>.\<close>

fun norm_comps :: "bool \<Rightarrow> string list \<Rightarrow> string list \<Rightarrow> string list" where
  "norm_comps initial_slashes new_comps [] = new_comps"
| "norm_comps initial_slashes new_comps (c # comps) =
     (if c = [] \<or> c = ''.'' then norm_comps initial_slashes new_comps comps
      else if c \<noteq> ''..'' \<or> (\<not> initial_slashes \<and> new_comps = [])
                \<or> (new_comps \<noteq> [] \<and> last new_comps = ''..'')
      then norm_comps initial_slashes (new_comps @ [c]) comps
      else if new_comps \<noteq> [] then norm_comps initial_slashes (butlast new_comps) comps
      else norm_comps initial_slashes new_comps comps)"

definition normpath :: "string \<Rightarrow> string" where
  "normpath p =
     (if p = [] then ''.''
      else
        (let initial_slashes =
               (if startswith p ''/''
                then (if startswith p ''//'' \<and> \<not> startswith p ''///'' then 2 else 1)
                else (0::nat));
             comps = norm_comps (initial_slashes \<noteq> 0) [] (py_split CHR ''/'' p);
             p1 = replicate initial_slashes CHR ''/'' @ py_join ''/'' comps
         in if p1 = [] then ''.'' else p1))"

text \<open>\<^verbatim>\<open>abspath\<close>; the current directory of the process is the parameter \<open>cwd\<close>.\<close>

definition abspath :: "string \<Rightarrow> string \<Rightarrow> string" where
  "abspath cwd p = normpath (if isabs p then p else path_join cwd p)"

fun commonprefix :: "string list \<Rightarrow> string list \<Rightarrow> string list" where
  "commonprefix (x # xs) (y # ys) = (if x = y then x # commonprefix xs ys else [])"
| "commonprefix _ _ = []"

definition relpath :: "string \<Rightarrow> string \<Rightarrow> string \<Rightarrow> error + string" where
  "relpath cwd p start =
     (if p = [] then Inl ValueError
      else
        (let start_list = filter (\<lambda>x. x \<noteq> []) (py_split CHR ''/'' (abspath cwd start));
             path_list = filter (\<lambda>x. x \<noteq> []) (py_split CHR ''/'' (abspath cwd p));
             i = length (commonprefix start_list path_list);
             rel_list = replicate (length start_list - i) ''..'' @ drop i path_list
         in if rel_list = [] then Inr ''.''
            else Inr (path_join_list (hd rel_list) (tl rel_list))))"

section \<open>Decoding a response body\<close>

text \<open>
  A byte is an 8-bit word; decoded text is a list of Unicode code points.  A codec
  looks at the bytes that remain and either decodes one code point from a number of
  them, or reports that a number of them are malformed.  Python's decoders hand a
  malformed range to the error handler: \<^verbatim>\<open>strict\<close> raises, \<^verbatim>\<open>ignore\<close> skips the
  range, \<^verbatim>\<open>replace\<close> puts U+FFFD in its place.
\<close>

type_synonym byte = "8 word"
type_synonym utext = "nat list"

datatype decode_step = Good nat nat | Bad nat

type_synonym codec = "nat list \<Rightarrow> decode_step"

datatype errors_mode = Strict | Ignore | Replace

definition is_cont :: "nat \<Rightarrow> bool" where
  "is_cont b \<longleftrightarrow> 128 \<le> b \<and> b \<le> 191"

text \<open>The second byte of a three-byte and of a four-byte sequence.\<close>

definition second_ok3 :: "nat \<Rightarrow> nat \<Rightarrow> bool" where
  "second_ok3 b0 b1 \<longleftrightarrow>
     is_cont b1 \<and> \<not> (b0 = 224 \<and> b1 < 160) \<and> \<not> (b0 = 237 \<and> 160 \<le> b1)"

definition second_ok4 :: "nat \<Rightarrow> nat \<Rightarrow> bool" where
  "second_ok4 b0 b1 \<longleftrightarrow>
     is_cont b1 \<and> \<not> (b0 = 240 \<and> b1 < 144) \<and> \<not> (b0 = 244 \<and> 144 \<le> b1)"

text \<open>CPython's UTF-8 decoder: one code point, or the malformed range it reports.\<close>

definition utf8_step :: codec where
  "utf8_step bs =
     (case bs of
        [] \<Rightarrow> Bad 1
      | b0 # r \<Rightarrow>
          if b0 < 128 then Good b0 1
          else if b0 < 194 then Bad 1
          else if b0 < 224 then
            (case r of
               [] \<Rightarrow> Bad 1
             | b1 # _ \<Rightarrow>
                 if is_cont b1 then Good ((b0 - 192) * 64 + (b1 - 128)) 2 else Bad 1)
          else if b0 < 240 then
            (case r of
               [] \<Rightarrow> Bad 1
             | b1 # r1 \<Rightarrow>
                 if \<not> second_ok3 b0 b1 then Bad 1
                 else (case r1 of
                         [] \<Rightarrow> Bad 2
                       | b2 # _ \<Rightarrow>
                           if is_cont b2
                           then Good ((b0 - 224) * 4096 + (b1 - 128) * 64 + (b2 - 128)) 3
                           else Bad 2))
          else if b0 < 245 then
            (case r of
               [] \<Rightarrow> Bad 1
             | b1 # r1 \<Rightarrow>
                 if \<not> second_ok4 b0 b1 then Bad 1
                 else (case r1 of
                         [] \<Rightarrow> Bad 2
                       | b2 # r2 \<Rightarrow>
                           if \<not> is_cont b2 then Bad 2
                           else (case r2 of
                                   [] \<Rightarrow> Bad 3
                                 | b3 # _ \<Rightarrow>
                                     if is_cont b3
                                     then Good ((b0 - 240) * 262144 + (b1 - 128) * 4096
                                                + (b2 - 128) * 64 + (b3 - 128)) 4
                                     else Bad 3)))
          else Bad 1)"

text \<open>
  The decoding loop.  A step consumes at least one byte, whatever the codec says.
\<close>

fun decode_loop :: "codec \<Rightarrow> errors_mode \<Rightarrow> nat list \<Rightarrow> error + utext" where
  "decode_loop cd em [] = Inr []"
| "decode_loop cd em (b # bs) =
     (case cd (b # bs) of
        Good c n \<Rightarrow>
          (case decode_loop cd em (drop (n - 1) bs) of
             Inl e \<Rightarrow> Inl e
           | Inr t \<Rightarrow> Inr (c # t))
      | Bad n \<Rightarrow>
          (case em of
             Strict \<Rightarrow> Inl UnicodeDecodeError
           | Ignore \<Rightarrow> decode_loop cd em (drop (n - 1) bs)
           | Replace \<Rightarrow>
               (case decode_loop cd em (drop (n - 1) bs) of
                  Inl e \<Rightarrow> Inl e
                | Inr t \<Rightarrow> Inr (65533 # t))))"

text \<open>
  \<^verbatim>\<open>content.decode(name, errors)\<close>.  The codec registry of Python is the parameter
  \<open>registry\<close>, except for the name \<^verbatim>\<open>utf-8\<close>; an unknown name raises
  \<^verbatim>\<open>LookupError\<close>.  Empty content decodes to the empty string before the codec
  is looked up.
\<close>

definition lookup_codec :: "(string \<Rightarrow> codec option) \<Rightarrow> string \<Rightarrow> codec option" where
  "lookup_codec registry name = (if name = ''utf-8'' then Some utf8_step else registry name)"

definition bytes_decode ::
  "(string \<Rightarrow> codec option) \<Rightarrow> byte list \<Rightarrow> string \<Rightarrow> errors_mode \<Rightarrow> error + utext" where
  "bytes_decode registry content name em =
     (if content = [] then Inr []
      else (case lookup_codec registry name of
              None \<Rightarrow> Inl LookupError
            | Some cd \<Rightarrow> decode_loop cd em (map unat content)))"

record http_response =
  content :: "byte list"
  encoding :: "string option"

text \<open>
  \<^verbatim>\<open>response.content.decode(response.encoding or 'utf-8', errors='ignore')\<close>
  (lines 48 and 162).
\<close>

definition decode_response :: "(string \<Rightarrow> codec option) \<Rightarrow> http_response \<Rightarrow> error + utext" where
  "decode_response registry r =
     bytes_decode registry (content r)
       (case encoding r of None \<Rightarrow> ''utf-8'' | Some e \<Rightarrow> if e = [] then ''utf-8'' else e)
       Ignore"


section \<open>The program: web_processor.process_document\<close>

subsection \<open>Inputs and the world outside the program\<close>

text \<open>The arguments of \<^verbatim>\<open>process_document\<close> other than the start URL.\<close>

record config =
  link_source_selector :: string
  main_content_selector :: "string option"
  output_dir :: string
  timeout :: real
  min_delay :: real
  max_delay :: real
  max_retry_duration :: real

text \<open>
  An \<^verbatim>\<open>a\<close> tag that has an \<^verbatim>\<open>href\<close> attribute: the attribute and the result
  of \<^verbatim>\<open>get_text(strip=True)\<close>.  A parsed start page answers \<^verbatim>\<open>find(id=...)\<close>
  and \<^verbatim>\<open>find(class_=...)\<close> with the element found, given by the list that
  \<^verbatim>\<open>find_all('a', href=True)\<close> returns for it, in document order.
\<close>

record anchor =
  href :: string
  get_text :: string

record document =
  find_id :: "string \<Rightarrow> anchor list option"
  find_class :: "string \<Rightarrow> anchor list option"

text \<open>
  One call of \<^verbatim>\<open>requests.get\<close> followed by \<^verbatim>\<open>raise_for_status\<close>: the
  response, or \<open>None\<close> when a \<^verbatim>\<open>RequestException\<close> is raised.  The field
  \<open>backoff\<close> is the number that \<^verbatim>\<open>random.uniform(min_delay, max_delay)\<close> returns
  when the program draws the backoff after this attempt.
\<close>

record http_attempt =
  response :: "http_response option"
  backoff :: real

text \<open>
  The libraries and the machine: the verdict of \<^verbatim>\<open>ipaddress\<close> on a bracketed host,
  the codec registry, the current directory, the subtraction of two floats (a float
  is modelled by the real number it denotes, and only the machine knows how the
  difference is rounded), the HTML parser on the start page, lines
  171--223 on a linked page (parse, remove the irrelevant elements, select the main
  content; \<open>None\<close> when there is not even a body), the Markdown converter, and the
  paths that cannot be opened for writing.
\<close>

record env =
  host_ok :: "string \<Rightarrow> bool"
  registry :: "string \<Rightarrow> codec option"
  cwd :: string
  fsub :: "real \<Rightarrow> real \<Rightarrow> real"
  parse_html :: "utext \<Rightarrow> document"
  extract_main :: "utext \<Rightarrow> string option \<Rightarrow> utext option"
  html2text :: "utext \<Rightarrow> utext"
  write_fails :: "string \<Rightarrow> bool"

datatype log_event =
    StartFetchRetry string
  | StartFetchFailed string
  | LinkSourceNotFound string
  | NoLinksFound string
  | NoFilteredLinks string
  | LinkFetchRetry string
  | LinkFetchFailed string
  | NoMainContent string
  | NotRelative string string
  | Saved string
  | SaveError string

text \<open>
  The state the program changes: the numbers that the calls of \<^verbatim>\<open>time.time()\<close>
  still to come return, in call order, the responses still to come (one entry per
  call of \<^verbatim>\<open>requests.get\<close>, in call order), the URLs passed to
  \<^verbatim>\<open>requests.get\<close> so far, the files and directories on disk, and the log.
\<close>

record world =
  readings :: "real list"
  tape :: "http_attempt list"
  requested :: "string list"
  files :: "(string \<times> utext) list"
  dirs :: "string list"
  log :: "log_event list"

subsection \<open>Scope and link collection (lines 83--112)\<close>

definition parent_url_base :: "(string \<Rightarrow> bool) \<Rightarrow> string \<Rightarrow> error + string" where
  "parent_url_base hok start_url =
     (case urlparse hok start_url [] of
        Inl e \<Rightarrow> Inl e
      | Inr parsed_start_url \<Rightarrow>
          (let parent_path0 = dirname (path parsed_start_url);
               parent_path = (if \<not> endswith parent_path0 ''/'' then parent_path0 @ ''/''
                              else parent_path0)
           in Inr (urlunparse \<lparr>scheme = scheme parsed_start_url, netloc = netloc parsed_start_url,
                     path = parent_path, params = [], query = [], fragment = []\<rparr>)))"

text \<open>\<^verbatim>\<open>urlunparse(urlparse(link_url)._replace(fragment=''))\<close> (lines 104--105, 146--147).\<close>

definition strip_fragment :: "(string \<Rightarrow> bool) \<Rightarrow> string \<Rightarrow> error + string" where
  "strip_fragment hok link_url =
     (case urlparse hok link_url [] of
        Inl e \<Rightarrow> Inl e
      | Inr parsed_link_url \<Rightarrow> Inr (urlunparse (parsed_link_url\<lparr>fragment := []\<rparr>)))"

text \<open>
  The loop of lines 96--109.  The dictionary \<^verbatim>\<open>unique_links_map\<close> keeps insertion
  order, so it is an association list that grows at the end.
\<close>

fun collect_links ::
  "(string \<Rightarrow> bool) \<Rightarrow> string \<Rightarrow> string \<Rightarrow> (string \<times> anchor \<times> string) list \<Rightarrow> anchor list
     \<Rightarrow> error + (string \<times> anchor \<times> string) list" where
  "collect_links hok start_url base unique_links_map [] = Inr unique_links_map"
| "collect_links hok start_url base unique_links_map (link # links) =
     (if href link = [] then collect_links hok start_url base unique_links_map links
      else
        (case urljoin hok start_url (href link) of
           Inl e \<Rightarrow> Inl e
         | Inr link_url \<Rightarrow>
             (case strip_fragment hok link_url of
                Inl e \<Rightarrow> Inl e
              | Inr url_without_fragment \<Rightarrow>
                  if startswith url_without_fragment base
                     \<and> map_of unique_links_map url_without_fragment = None
                  then collect_links hok start_url base
                         (unique_links_map @ [(url_without_fragment, (link, link_url))]) links
                  else collect_links hok start_url base unique_links_map links)))"

text \<open>\<^verbatim>\<open>filtered_links_info = list(unique_links_map.values())\<close>.\<close>

definition filtered_links_info :: "(string \<times> anchor \<times> string) list \<Rightarrow> (anchor \<times> string) list" where
  "filtered_links_info unique_links_map = map snd unique_links_map"

subsection \<open>The retry loop (lines 37--52 and 150--166)\<close>

datatype fetch_end = Fetched utext | GaveUp | Raised error

record fetch_result =
  ending :: fetch_end
  rest_readings :: "real list"
  rest_tape :: "http_attempt list"
  requested_urls :: "string list"
  failures :: nat
  checks :: "real list"

text \<open>
  The loop, from the reading of the clock at its top.  \<open>start_time\<close> is the clock read
  before the loop, \<open>n\<close> the number of failed attempts so far, \<open>reqs\<close> the URLs passed
  to \<^verbatim>\<open>requests.get\<close> so far, \<open>cs\<close> the values of \<^verbatim>\<open>elapsed_time\<close> computed so far.
  \<^verbatim>\<open>time.sleep\<close> raises \<^verbatim>\<open>ValueError\<close> on a negative argument.  The result is
  \<open>None\<close> when the clock readings or the responses run out before the loop ends.
\<close>

fun fetch_loop ::
  "(string \<Rightarrow> codec option) \<Rightarrow> (real \<Rightarrow> real \<Rightarrow> real) \<Rightarrow> config \<Rightarrow> string \<Rightarrow> real \<Rightarrow> nat
     \<Rightarrow> string list \<Rightarrow> real list \<Rightarrow> http_attempt list \<Rightarrow> real list \<Rightarrow> fetch_result option" where
  "fetch_loop reg sub cfg url start_time n reqs cs tp [] = None"
| "fetch_loop reg sub cfg url start_time n reqs cs tp (t # ts) =
     (let elapsed_time = sub t start_time
      in if elapsed_time > max_retry_duration cfg
         then Some \<lparr>ending = GaveUp, rest_readings = ts, rest_tape = tp, requested_urls = reqs,
                      failures = n, checks = cs @ [elapsed_time]\<rparr>
         else
           (case tp of
              [] \<Rightarrow> None
            | a # tp' \<Rightarrow>
                (case response a of
                   Some r \<Rightarrow>
                     (case decode_response reg r of
                        Inl e \<Rightarrow> Some \<lparr>ending = Raised e, rest_readings = ts, rest_tape = tp',
                                        requested_urls = reqs @ [url], failures = n,
                                        checks = cs @ [elapsed_time]\<rparr>
                      | Inr html_content \<Rightarrow>
                          Some \<lparr>ending = Fetched html_content, rest_readings = ts,
                                 rest_tape = tp', requested_urls = reqs @ [url], failures = n,
                                 checks = cs @ [elapsed_time]\<rparr>)
                 | None \<Rightarrow>
                     if backoff a < 0
                     then Some \<lparr>ending = Raised ValueError, rest_readings = ts, rest_tape = tp',
                                  requested_urls = reqs @ [url], failures = Suc n,
                                  checks = cs @ [elapsed_time]\<rparr>
                     else fetch_loop reg sub cfg url start_time (Suc n) (reqs @ [url])
                            (cs @ [elapsed_time]) tp' ts)))"

declare fetch_loop.simps [simp del]

text \<open>
  Lines 37--52 and 150--166: \<^verbatim>\<open>start_time = time.time()\<close>, then the loop.
\<close>

definition fetch :: "env \<Rightarrow> config \<Rightarrow> string \<Rightarrow> world \<Rightarrow> fetch_result option" where
  "fetch e cfg url w =
     (case readings w of
        [] \<Rightarrow> None
      | start_time # ts \<Rightarrow>
          fetch_loop (registry e) (fsub e) cfg url start_time 0 (requested w) [] (tape w) ts)"

subsection \<open>Output paths (lines 126--138 and 258--301)\<close>

text \<open>Lines 126--134.\<close>

definition base_path_for_relative :: "(string \<Rightarrow> bool) \<Rightarrow> string \<Rightarrow> error + string" where
  "base_path_for_relative hok start_url =
     (case urlparse hok start_url [] of
        Inl e \<Rightarrow> Inl e
      | Inr parsed \<Rightarrow>
          (let b0 = dirname (path parsed);
               b1 = (if b0 = [] then ''/'' else b0);
               b2 = (if \<not> endswith b1 ''/'' then b1 @ ''/'' else b1)
           in Inr b2))"

text \<open>Line 138.\<close>

definition output_root_name :: "string \<Rightarrow> string" where
  "output_root_name base = basename (normpath base)"

text \<open>Lines 272--284.\<close>

definition file_output_dir :: "string \<Rightarrow> string \<Rightarrow> string \<Rightarrow> string" where
  "file_output_dir out_dir root_name relative_link_path =
     (let relative_output_subdir = dirname relative_link_path;
          d = (if root_name \<noteq> []
               then path_join_list out_dir [root_name, relative_output_subdir]
               else path_join out_dir relative_output_subdir)
      in if startswith d ''./'' \<or> startswith d [CHR ''.'', CHR 0x5C] then drop 2 d else d)"

text \<open>\<^verbatim>\<open>str(n)\<close> for a natural number.\<close>

fun str_nat :: "nat \<Rightarrow> string" where
  "str_nat n = (if n < 10 then [char_of (48 + n)]
                else str_nat (n div 10) @ [char_of (48 + n mod 10)])"

declare str_nat.simps [simp del]

text \<open>The name tried when the counter is \<open>k\<close> (lines 299--300).\<close>

definition candidate :: "string \<Rightarrow> string \<Rightarrow> nat \<Rightarrow> string" where
  "candidate dir original_filename k =
     path_join dir ((original_filename @ ''_'' @ str_nat k) @ ''.md'')"

text \<open>
  \<^verbatim>\<open>os.path.exists\<close>: a path exists when it is a file or a directory on disk.
\<close>

definition path_exists :: "world \<Rightarrow> string \<Rightarrow> bool" where
  "path_exists w p \<longleftrightarrow> p \<in> set (map fst (files w)) \<or> p \<in> set (dirs w)"

definition existing_paths :: "world \<Rightarrow> string list" where
  "existing_paths w = map fst (files w) @ dirs w"

text \<open>
  The uniqueness loop of lines 295--301 ends because only finitely many paths exist and
  the names tried grow in length; the next lemmas give the bound its termination needs.
\<close>

lemma str_nat_bound: "n < 10 ^ length (str_nat n)"
proof (induction n rule: str_nat.induct)
  case (1 n)
  show ?case
  proof (cases "n < 10")
    case True then show ?thesis by (simp add: str_nat.simps[of n])
  next
    case False
    with 1 have "n div 10 < 10 ^ length (str_nat (n div 10))" by simp
    then have "n < 10 * 10 ^ length (str_nat (n div 10))" by simp
    with False show ?thesis by (simp add: str_nat.simps[of n])
  qed
qed

lemma length_path_join: "length b \<le> length (path_join a b)"
  by (simp add: path_join_def)

definition name_bound :: "string list \<Rightarrow> nat" where
  "name_bound existing = 10 ^ foldr (\<lambda>p m. max (length p) m) existing 0"

lemma length_le_foldr_max: "p \<in> set ps \<Longrightarrow> length p \<le> foldr (\<lambda>p m. max (length p) m) ps 0"
  by (induction ps) auto

lemma candidate_bound:
  assumes "candidate dir orig k \<in> set existing"
  shows "k < name_bound existing"
proof -
  let ?c = "candidate dir orig k"
  have "length (str_nat k) \<le> length ?c"
    using length_path_join[of "(orig @ ''_'' @ str_nat k) @ ''.md''" dir]
    by (simp add: candidate_def)
  also have "\<dots> \<le> foldr (\<lambda>p m. max (length p) m) existing 0"
    using assms by (rule length_le_foldr_max)
  finally have "(10::nat) ^ length (str_nat k) \<le> name_bound existing"
    by (simp add: name_bound_def)
  with str_nat_bound[of k] show ?thesis by simp
qed

text \<open>
  The loop: \<open>existing\<close> lists the paths for which \<^verbatim>\<open>os.path.exists\<close> holds.  The
  result is the final \<^verbatim>\<open>filename\<close>, \<^verbatim>\<open>markdown_filename\<close> and \<^verbatim>\<open>counter\<close>.
\<close>

function unique_loop ::
  "string list \<Rightarrow> string \<Rightarrow> string \<Rightarrow> string \<Rightarrow> string \<Rightarrow> nat \<Rightarrow> string \<times> string \<times> nat" where
  "unique_loop existing dir original_filename filename markdown_filename counter =
     (if markdown_filename \<in> set existing
      then unique_loop existing dir original_filename
             (original_filename @ ''_'' @ str_nat counter)
             (candidate dir original_filename counter) (counter + 1)
      else (filename, markdown_filename, counter))"
  by pat_completeness auto
termination
proof (relation "measure (\<lambda>(existing, dir, orig, fn, mf, c).
          2 * (name_bound existing - c) + (if mf \<in> set existing then 1 else 0))", goal_cases)
  case 1
  show ?case by simp
next
  case (2 existing dir orig fn mf c)
  show ?case
  proof (cases "candidate dir orig c \<in> set existing")
    case True
    then have "c < name_bound existing" by (rule candidate_bound)
    with 2 True show ?thesis by simp
  next
    case False
    with 2 show ?thesis by simp
  qed
qed


text \<open>Lines 290--301: the first name tried has no suffix, the counter starts at 1.\<close>

definition unique_name :: "string list \<Rightarrow> string \<Rightarrow> string \<Rightarrow> string \<times> string \<times> nat" where
  "unique_name existing dir filename =
     unique_loop existing dir filename filename (path_join dir (filename @ ''.md'')) 1"

text \<open>
  \<^verbatim>\<open>os.makedirs(d, exist_ok=True)\<close>: the directory and its ancestors exist afterwards;
  it raises when the path is empty or when a file is in the way.
\<close>

definition ancestors :: "string \<Rightarrow> string list" where
  "ancestors d = filter (\<lambda>p. p \<noteq> []) (map (py_join ''/'') (prefixes (py_split CHR ''/'' d)))"

definition makedirs :: "world \<Rightarrow> string \<Rightarrow> error + world" where
  "makedirs w d =
     (if d = [] \<or> (\<exists>p \<in> set (ancestors d). p \<in> set (map fst (files w))) then Inl OSError
      else Inr (w\<lparr>dirs := dirs w @ filter (\<lambda>p. p \<notin> set (dirs w)) (ancestors d)\<rparr>))"

text \<open>
  Lines 304--309: \<^verbatim>\<open>open(markdown_filename, 'w')\<close> and \<^verbatim>\<open>write\<close>; an
  \<^verbatim>\<open>IOError\<close> is logged.  Writing replaces the content of a file that exists.
\<close>

definition write_file :: "env \<Rightarrow> world \<Rightarrow> string \<Rightarrow> utext \<Rightarrow> world" where
  "write_file e w p md =
     (if write_fails e p then w\<lparr>log := log w @ [SaveError p]\<rparr>
      else w\<lparr>files := (if p \<in> set (map fst (files w))
                         then map (\<lambda>(q, c). if q = p then (q, md) else (q, c)) (files w)
                         else files w @ [(p, md)]),
              log := log w @ [Saved p]\<rparr>)"

subsection \<open>Processing the links (lines 142--309)\<close>

text \<open>
  Lines 171--309 for one fetched page.  The result is the exception that leaves the
  program, if any, and the world; the other branches are the \<^verbatim>\<open>continue\<close>
  statements and the end of the loop body.
\<close>

definition after_fetch ::
  "env \<Rightarrow> config \<Rightarrow> string \<Rightarrow> string \<Rightarrow> anchor \<Rightarrow> string \<Rightarrow> utext \<Rightarrow> world
     \<Rightarrow> error option \<times> world" where
  "after_fetch e cfg base root_name link_tag url_without_fragment linked_page_html w =
     (case extract_main e linked_page_html (main_content_selector cfg) of
        None \<Rightarrow> (None, w\<lparr>log := log w @ [NoMainContent url_without_fragment]\<rparr>)
      | Some main_content_html \<Rightarrow>
          (let markdown_content = html2text e main_content_html
           in case urlparse (host_ok e) url_without_fragment [] of
                Inl err \<Rightarrow> (Some err, w)
              | Inr parsed \<Rightarrow>
                  (let link_text = get_text link_tag;
                       filename_base = (if link_text \<noteq> [] then link_text
                                        else py_replace_char CHR ''.'' CHR ''_''
                                               (basename (path parsed)));
                       filename = sanitize filename_base;
                       link_path = path parsed
                   in case relpath (cwd e) link_path base of
                        Inl _ \<Rightarrow> (None, w\<lparr>log := log w @ [NotRelative link_path base]\<rparr>)
                      | Inr relative_link_path \<Rightarrow>
                          (let fod = file_output_dir (output_dir cfg) root_name relative_link_path
                           in case makedirs w fod of
                                Inl err \<Rightarrow> (Some err, w)
                              | Inr w' \<Rightarrow>
                                  (case unique_name (existing_paths w') fod filename of
                                     (_, markdown_filename, _) \<Rightarrow>
                                       (None, write_file e w' markdown_filename
                                                markdown_content))))))"

text \<open>
  The body of the loop over \<^verbatim>\<open>filtered_links_info\<close> for one link.  \<open>None\<close> means that
  the responses ran out inside the retry loop.
\<close>

definition process_link ::
  "env \<Rightarrow> config \<Rightarrow> string \<Rightarrow> string \<Rightarrow> anchor \<times> string \<Rightarrow> world
     \<Rightarrow> (error option \<times> world) option" where
  "process_link e cfg base root_name link_info w =
     (case link_info of (link_tag, link_url) \<Rightarrow>
        (case strip_fragment (host_ok e) link_url of
           Inl err \<Rightarrow> Some (Some err, w)
         | Inr url_without_fragment \<Rightarrow>
             (case fetch e cfg link_url w of
                None \<Rightarrow> None
              | Some fr \<Rightarrow>
                  (let w1 = w\<lparr>readings := rest_readings fr, tape := rest_tape fr,
                               requested := requested_urls fr,
                               log := log w @ replicate (failures fr) (LinkFetchRetry link_url)\<rparr>
                   in case ending fr of
                        Raised err \<Rightarrow> Some (Some err, w1)
                      | GaveUp \<Rightarrow> Some (None, w1\<lparr>log := log w1 @ [LinkFetchFailed link_url]\<rparr>)
                      | Fetched linked_page_html \<Rightarrow>
                          Some (after_fetch e cfg base root_name link_tag url_without_fragment
                                  linked_page_html w1)))))"

fun process_links ::
  "env \<Rightarrow> config \<Rightarrow> string \<Rightarrow> string \<Rightarrow> (anchor \<times> string) list \<Rightarrow> world
     \<Rightarrow> (error option \<times> world) option" where
  "process_links e cfg base root_name [] w = Some (None, w)"
| "process_links e cfg base root_name (link_info # rest) w =
     (case process_link e cfg base root_name link_info w of
        None \<Rightarrow> None
      | Some (Some err, w') \<Rightarrow> Some (Some err, w')
      | Some (None, w') \<Rightarrow> process_links e cfg base root_name rest w')"

subsection \<open>The whole run\<close>

datatype outcome = Failed | Empty | Done | Crashed error

text \<open>Lines 57--63: by id first, then by class.\<close>

definition find_link_source :: "document \<Rightarrow> string \<Rightarrow> anchor list option" where
  "find_link_source soup selector =
     (case find_id soup selector of
        Some el \<Rightarrow> Some el
      | None \<Rightarrow> find_class soup selector)"

text \<open>Lines 54--309, after the start page has been fetched.\<close>

definition after_start ::
  "env \<Rightarrow> config \<Rightarrow> string \<Rightarrow> utext \<Rightarrow> world \<Rightarrow> (outcome \<times> world) option" where
  "after_start e cfg start_url html_content w =
     (case find_link_source (parse_html e html_content) (link_source_selector cfg) of
        None \<Rightarrow> Some (Empty, w\<lparr>log := log w @ [LinkSourceNotFound start_url]\<rparr>)
      | Some links \<Rightarrow>
          if links = []
          then Some (Empty, w\<lparr>log := log w @ [NoLinksFound (link_source_selector cfg)]\<rparr>)
          else
            (case parent_url_base (host_ok e) start_url of
               Inl err \<Rightarrow> Some (Crashed err, w)
             | Inr base \<Rightarrow>
                 (case collect_links (host_ok e) start_url base [] links of
                    Inl err \<Rightarrow> Some (Crashed err, w)
                  | Inr unique_links_map \<Rightarrow>
                      if filtered_links_info unique_links_map = []
                      then Some (Empty, w\<lparr>log := log w @ [NoFilteredLinks base]\<rparr>)
                      else
                        (case makedirs w (output_dir cfg) of
                           Inl err \<Rightarrow> Some (Crashed err, w)
                         | Inr w' \<Rightarrow>
                             (case base_path_for_relative (host_ok e) start_url of
                                Inl err \<Rightarrow> Some (Crashed err, w')
                              | Inr bp \<Rightarrow>
                                  (case process_links e cfg bp (output_root_name bp)
                                          (filtered_links_info unique_links_map) w' of
                                     None \<Rightarrow> None
                                   | Some (Some err, w'') \<Rightarrow> Some (Crashed err, w'')
                                   | Some (None, w'') \<Rightarrow> Some (Done, w'')))))))"

definition process_document ::
  "env \<Rightarrow> config \<Rightarrow> string \<Rightarrow> world \<Rightarrow> (outcome \<times> world) option" where
  "process_document e cfg start_url w =
     (case fetch e cfg start_url w of
        None \<Rightarrow> None
      | Some fr \<Rightarrow>
          (let w1 = w\<lparr>readings := rest_readings fr, tape := rest_tape fr,
                       requested := requested_urls fr,
                       log := log w @ replicate (failures fr) (StartFetchRetry start_url)\<rparr>
           in case ending fr of
                Raised err \<Rightarrow> Some (Crashed err, w1)
              | GaveUp \<Rightarrow> Some (Failed, w1\<lparr>log := log w1 @ [StartFetchFailed start_url]\<rparr>)
              | Fetched html_content \<Rightarrow> after_start e cfg start_url html_content w1))"

subsection \<open>What the collector is meant to return\<close>

text \<open>
  The candidate that an anchor contributes: the fragment-stripped URL, the anchor and
  the resolved URL, when the anchor has a non-empty \<^verbatim>\<open>href\<close> that resolves into the
  scope.  \<open>first_occurrences\<close> keeps, in order, the entries whose key does not occur
  earlier in the list.  \<open>dedup_into\<close> is the insertion into the dictionary, entry by
  entry.
\<close>

definition in_scope_candidate ::
  "(string \<Rightarrow> bool) \<Rightarrow> string \<Rightarrow> string \<Rightarrow> anchor \<Rightarrow> (string \<times> anchor \<times> string) option" where
  "in_scope_candidate hok start_url base link =
     (if href link = [] then None
      else (case urljoin hok start_url (href link) of
              Inl _ \<Rightarrow> None
            | Inr link_url \<Rightarrow>
                (case strip_fragment hok link_url of
                   Inl _ \<Rightarrow> None
                 | Inr k \<Rightarrow> if startswith k base then Some (k, link, link_url) else None)))"

definition in_scope_candidates ::
  "(string \<Rightarrow> bool) \<Rightarrow> string \<Rightarrow> string \<Rightarrow> anchor list \<Rightarrow> (string \<times> anchor \<times> string) list" where
  "in_scope_candidates hok start_url base links =
     List.map_filter (in_scope_candidate hok start_url base) links"

definition first_occurrences :: "('k \<times> 'v) list \<Rightarrow> ('k \<times> 'v) list" where
  "first_occurrences xs =
     map (\<lambda>i. xs ! i)
       (filter (\<lambda>i. fst (xs ! i) \<notin> fst ` set (take i xs)) [0..<length xs])"

fun dedup_into :: "('k \<times> 'v) list \<Rightarrow> ('k \<times> 'v) list \<Rightarrow> ('k \<times> 'v) list" where
  "dedup_into acc [] = acc"
| "dedup_into acc (c # cs) =
     (if map_of acc (fst c) = None then dedup_into (acc @ [c]) cs else dedup_into acc cs)"

subsection \<open>Inputs of the scenarios\<close>

text \<open>
  The anchors of Scenario A, with any anchor texts, and a variant with an empty
  \<^verbatim>\<open>href\<close>, relative references and a repeated page.
\<close>

definition scenario_A_anchors :: "(string \<Rightarrow> string) \<Rightarrow> anchor list" where
  "scenario_A_anchors txt =
     map (\<lambda>h. \<lparr>href = h, get_text = txt h\<rparr>)
       [''/docs/a.html'', ''/docs/b.html#sec'', ''../other/c.html'', ''https://other.com/x'']"

definition scenario_dup_anchors :: "anchor list" where
  "scenario_dup_anchors =
     [\<lparr>href = ''/docs/a.html'', get_text = ''first''\<rparr>,
      \<lparr>href = ''b.html#sec'', get_text = ''B''\<rparr>,
      \<lparr>href = '''', get_text = ''empty''\<rparr>,
      \<lparr>href = ''https://other.com/x'', get_text = ''X''\<rparr>,
      \<lparr>href = ''a.html#again'', get_text = ''second''\<rparr>]"

text \<open>
  A world for the scenarios: every bracketed host is accepted, only UTF-8 is known,
  floats are subtracted exactly, the
  start page has one element with id \<^verbatim>\<open>nav\<close> holding the given anchors, every
  non-empty page has main content, the converter returns its input, and every file can
  be written.  The configuration is the default one of the command line.
\<close>

definition scenario_env :: "anchor list \<Rightarrow> env" where
  "scenario_env anchors =
     \<lparr>host_ok = (\<lambda>_. True), registry = (\<lambda>_. None), cwd = ''/home/user'',
      fsub = (\<lambda>a b. a - b),
      parse_html = (\<lambda>_. \<lparr>find_id = (\<lambda>s. if s = ''nav'' then Some anchors else None),
                          find_class = (\<lambda>_. None)\<rparr>),
      extract_main = (\<lambda>h _. if h = [] then None else Some h),
      html2text = (\<lambda>h. h),
      write_fails = (\<lambda>_. False)\<rparr>"

definition scenario_cfg :: config where
  "scenario_cfg =
     \<lparr>link_source_selector = ''nav'', main_content_selector = None,
      output_dir = ''output_markdowns'', timeout = 10, min_delay = 1, max_delay = 5,
      max_retry_duration = 15\<rparr>"




text \<open>
  Scenario E after the first of the two links: \<^verbatim>\<open>intro.md\<close> has been written into the
  output directory of the section.
\<close>

definition scenario_E_world :: world where
  "scenario_E_world =
     \<lparr>readings = [], tape = [],
      requested = [''https://ex.com/docs/intro.html'', ''https://ex.com/docs/start.html''],
      files = [(''output_markdowns/docs/intro.md'', [65])],
      dirs = [''output_markdowns'', ''output_markdowns/docs'', ''output_markdowns/docs/''],
      log = [Saved ''output_markdowns/docs/intro.md'']\<rparr>"

section \<open>Properties of the string operations and of sanitization\<close>

lemma py_lower_char_idem: "py_lower_char (py_lower_char c) = py_lower_char c"
  by (auto simp: py_lower_char_def cp_def Let_def)

lemma py_lower_underscore: "py_lower_char CHR ''_'' = CHR ''_''"
  by (simp add: py_lower_char_def cp_def)

lemma py_strip_set: "set (py_strip cs s) \<subseteq> set s"
  by (auto simp: py_strip_def py_rstrip_def py_lstrip_def dest!: set_dropWhileD)

lemma py_lstrip_fix: "s \<noteq> [] \<Longrightarrow> hd s \<notin> set cs \<Longrightarrow> py_lstrip cs s = s"
  by (cases s) (simp_all add: py_lstrip_def)

lemma py_rstrip_fix: "s \<noteq> [] \<Longrightarrow> last s \<notin> set cs \<Longrightarrow> py_rstrip cs s = s"
  by (cases s rule: rev_cases) (simp_all add: py_rstrip_def)

lemma py_lstrip_hd: "py_lstrip cs s \<noteq> [] \<Longrightarrow> hd (py_lstrip cs s) \<notin> set cs"
  unfolding py_lstrip_def using hd_dropWhile[of "\<lambda>c. c \<in> set cs" s] by simp

lemma py_rstrip_last: "py_rstrip cs s \<noteq> [] \<Longrightarrow> last (py_rstrip cs s) \<notin> set cs"
  unfolding py_rstrip_def using hd_dropWhile[of "\<lambda>c. c \<in> set cs" "rev s"]
  by (simp add: last_rev)

lemma py_rstrip_hd: "s \<noteq> [] \<Longrightarrow> hd s \<notin> set cs \<Longrightarrow> hd (py_rstrip cs s) = hd s"
  by (cases s) (simp_all add: py_rstrip_def dropWhile_append)


lemma py_lower_fix: "(\<And>c. c \<in> set s \<Longrightarrow> py_lower_char c = c) \<Longrightarrow> py_lower s = s"
  unfolding py_lower_def by (rule map_idI)

lemma py_replace_char_fix: "a \<notin> set s \<Longrightarrow> py_replace_char a b s = s"
  unfolding py_replace_char_def by (rule map_idI) auto

lemma py_strip_Nil: "py_strip cs [] = []"
  by (simp add: py_strip_def py_rstrip_def py_lstrip_def)

lemma py_strip_idem: "py_strip cs (py_strip cs s) = py_strip cs s"
proof (cases "py_strip cs s = []")
  case True
  show ?thesis unfolding True by (rule py_strip_Nil)
next
  case False
  let ?l = "py_lstrip cs s"
  have l: "?l \<noteq> []"
  proof
    assume "?l = []"
    then have "py_strip cs s = []" by (simp add: py_strip_def py_rstrip_def)
    with False show False ..
  qed
  then have "hd ?l \<notin> set cs" by (rule py_lstrip_hd)
  with l have "hd (py_rstrip cs ?l) = hd ?l \<and> hd ?l \<notin> set cs"
    using py_rstrip_hd[of ?l cs] by blast
  then have h: "hd (py_strip cs s) \<notin> set cs"
    unfolding py_strip_def by simp
  from False have t: "last (py_strip cs s) \<notin> set cs"
    unfolding py_strip_def by (rule py_rstrip_last)
  from False h have a: "py_lstrip cs (py_strip cs s) = py_strip cs s" by (rule py_lstrip_fix)
  from False t have b: "py_rstrip cs (py_strip cs s) = py_strip cs s" by (rule py_rstrip_fix)
  show ?thesis unfolding py_strip_def[of cs "py_strip cs s"] a b ..
qed

lemma sanitize_untitled: "sanitize ''untitled_page'' = ''untitled_page''"
  by code_simp

text \<open>
  Claim C9.  Sanitizing a filename twice gives the same result as sanitizing it once:
  lower-casing, replacing spaces, dropping the characters that are neither alphanumeric
  nor underscore or hyphen, trimming underscores and hyphens and substituting
  \<^verbatim>\<open>untitled_page\<close> for the empty result is idempotent.
\<close>

theorem sanitize_idempotent: "sanitize (sanitize x) = sanitize x"
proof -
  let ?keep = "\<lambda>c. py_isalnum c \<or> c = CHR ''_'' \<or> c = CHR ''-''"
  let ?f = "filter ?keep (py_replace_char CHR '' '' CHR ''_'' (py_lower x))"
  let ?r = "py_strip ''_-'' ?f"
  show ?thesis
  proof (cases "?r = []")
    case True
    then have "sanitize x = ''untitled_page''" by (simp add: sanitize_def Let_def)
    then show ?thesis by (simp add: sanitize_untitled)
  next
    case False
    then have sx: "sanitize x = ?r" by (simp add: sanitize_def Let_def)
    have sub: "set ?r \<subseteq> set ?f" by (rule py_strip_set)
    have fixc: "py_lower_char c = c \<and> c \<noteq> CHR '' '' \<and> ?keep c"
      if "c \<in> set ?r" for c
    proof -
      from that sub have c: "c \<in> set ?f" by blast
      then have k: "?keep c" by simp
      from c have "c \<in> set (py_replace_char CHR '' '' CHR ''_'' (py_lower x))" by simp
      then obtain d where d: "c = (if py_lower_char d = CHR '' '' then CHR ''_'' else py_lower_char d)"
        unfolding py_replace_char_def py_lower_def set_map image_iff by blast
      have "py_lower_char c = c \<and> c \<noteq> CHR '' ''"
        unfolding d
        by (cases "py_lower_char d = CHR '' ''") (simp_all add: py_lower_char_idem py_lower_underscore)
      with k show ?thesis by simp
    qed
    have 1: "py_lower ?r = ?r"
      by (rule py_lower_fix) (use fixc in blast)
    have 2: "py_replace_char CHR '' '' CHR ''_'' ?r = ?r"
      by (rule py_replace_char_fix) (use fixc in blast)
    have 3: "filter ?keep ?r = ?r"
      by (rule filter_True) (use fixc in blast)
    have 4: "py_strip ''_-'' ?r = ?r" by (rule py_strip_idem)
    have "sanitize ?r = ?r"
      unfolding sanitize_def Let_def 1 2 3 4 using False by simp
    with sx show ?thesis by simp
  qed
qed

section \<open>The link collector\<close>

lemma collect_links_dedup:
  "collect_links hok start_url base acc links = Inr m \<Longrightarrow>
   m = dedup_into acc (in_scope_candidates hok start_url base links)"
proof (induction links arbitrary: acc)
  case Nil
  then show ?case by (simp add: in_scope_candidates_def map_filter_simps)
next
  case (Cons link links)
  show ?case
  proof (cases "href link = []")
    case True
    with Cons show ?thesis
      by (simp add: in_scope_candidates_def map_filter_simps in_scope_candidate_def)
  next
    case False
    show ?thesis
    proof (cases "urljoin hok start_url (href link)")
      case (Inl e)
      with Cons.prems False show ?thesis by simp
    next
      case (Inr link_url)
      note u = this
      show ?thesis
      proof (cases "strip_fragment hok link_url")
        case (Inl e)
        with Cons.prems False u show ?thesis by simp
      next
        case (Inr k)
        show ?thesis
        proof (cases "startswith k base")
          case True
          then have c: "in_scope_candidate hok start_url base link = Some (k, link, link_url)"
            using False u Inr by (simp add: in_scope_candidate_def)
          show ?thesis
          proof (cases "map_of acc k = None")
            case True
            with Cons.prems False u Inr \<open>startswith k base\<close>
            have "collect_links hok start_url base (acc @ [(k, link, link_url)]) links = Inr m"
              by simp
            from Cons.IH[OF this] c True show ?thesis
              by (simp add: in_scope_candidates_def map_filter_simps)
          next
            case nn: False
            from Cons.prems False u Inr
            have "collect_links hok start_url base acc links = Inr m" by (simp add: nn)
            from Cons.IH[OF this] c show ?thesis
              by (simp add: in_scope_candidates_def map_filter_simps nn)
          qed
        next
          case nf: False
          then have c: "in_scope_candidate hok start_url base link = None"
            using False u Inr by (simp add: in_scope_candidate_def)
          from Cons.prems False u Inr nf
          have "collect_links hok start_url base acc links = Inr m" by simp
          from Cons.IH[OF this] c show ?thesis
            by (simp add: in_scope_candidates_def map_filter_simps)
        qed
      qed
    qed
  qed
qed

lemma filter_first_occ_Cons:
  "filter (\<lambda>i. fst ((c # cs) ! i) \<notin> fst ` set acc \<and> fst ((c # cs) ! i) \<notin> fst ` set (take i (c # cs)))
     [0..<length (c # cs)] =
   (if fst c \<in> fst ` set acc then [] else [0]) @
   map Suc (filter (\<lambda>i. fst (cs ! i) \<notin> fst ` set (acc @ [c]) \<and> fst (cs ! i) \<notin> fst ` set (take i cs))
     [0..<length cs])"
proof -
  have upt: "[0..<length (c # cs)] = 0 # map Suc [0..<length cs]"
    by (simp add: upt_conv_Cons map_Suc_upt del: upt_Suc)
  have "filter (\<lambda>i. fst ((c # cs) ! Suc i) \<notin> fst ` set acc
                    \<and> fst ((c # cs) ! Suc i) \<notin> fst ` set (take (Suc i) (c # cs))) xs
      = filter (\<lambda>i. fst (cs ! i) \<notin> fst ` set (acc @ [c]) \<and> fst (cs ! i) \<notin> fst ` set (take i cs)) xs"
    for xs :: "nat list"
    by (rule filter_cong) auto
  then show ?thesis
    unfolding upt by (simp add: filter_map comp_def)
qed

lemma dedup_into_index:
  "dedup_into acc cs =
   acc @ map (\<lambda>i. cs ! i)
           (filter (\<lambda>i. fst (cs ! i) \<notin> fst ` set acc \<and> fst (cs ! i) \<notin> fst ` set (take i cs))
              [0..<length cs])"
proof (induction cs arbitrary: acc)
  case Nil
  show ?case by simp
next
  case (Cons c cs)
  show ?case
  proof (cases "map_of acc (fst c) = None")
    case True
    then have nin: "fst c \<notin> fst ` set acc"
      using map_of_eq_None_iff[of acc "fst c"] by simp
    have "dedup_into acc (c # cs) = dedup_into (acc @ [c]) cs" by (simp add: True)
    then show ?thesis
      unfolding Cons.IH[of "acc @ [c]"] filter_first_occ_Cons using nin
      by (simp add: comp_def)
  next
    case False
    then have inn: "fst c \<in> fst ` set acc"
      using map_of_eq_None_iff[of acc "fst c"] by simp
    then have same: "fst ` set (acc @ [c]) = fst ` set acc" by auto
    have "dedup_into acc (c # cs) = dedup_into acc cs" by (simp add: False)
    then show ?thesis
      unfolding Cons.IH[of acc] filter_first_occ_Cons same using inn
      by (simp add: comp_def)
  qed
qed


lemma dedup_into_distinct:
  "distinct (map fst acc) \<Longrightarrow> distinct (map fst (dedup_into acc cs))"
proof (induction cs arbitrary: acc)
  case Nil
  then show ?case by simp
next
  case (Cons c cs)
  show ?case
  proof (cases "map_of acc (fst c) = None")
    case True
    then have "fst c \<notin> fst ` set acc"
      using map_of_eq_None_iff[of acc "fst c"] by simp
    with Cons.prems have "distinct (map fst (acc @ [c]))" by simp
    then have "distinct (map fst (dedup_into (acc @ [c]) cs))" by (rule Cons.IH)
    then show ?thesis by (simp add: True)
  next
    case False
    from Cons.prems have "distinct (map fst (dedup_into acc cs))" by (rule Cons.IH)
    then show ?thesis by (simp add: False)
  qed
qed

lemma dedup_into_set: "set (dedup_into acc cs) \<subseteq> set acc \<union> set cs"
proof (induction cs arbitrary: acc)
  case Nil
  show ?case by simp
next
  case (Cons c cs)
  show ?case
    using Cons.IH[of acc] Cons.IH[of "acc @ [c]"] by (cases "map_of acc (fst c) = None") auto
qed

lemma in_scope_candidate_SomeD:
  assumes "in_scope_candidate hok start_url base link = Some (k, l, u)"
  shows "l = link \<and> startswith k base \<and> urljoin hok start_url (href link) = Inr u
         \<and> strip_fragment hok u = Inr k"
  using assms unfolding in_scope_candidate_def
  by (simp split: if_splits sum.splits)

lemma set_map_filter_iff: "y \<in> set (List.map_filter f xs) \<longleftrightarrow> (\<exists>x \<in> set xs. f x = Some y)"
  by (induction xs) (auto simp: map_filter_simps split: option.splits)

lemma in_scope_candidates_D:
  assumes "(k, l, u) \<in> set (in_scope_candidates hok start_url base links)"
  shows "l \<in> set links \<and> startswith k base \<and> urljoin hok start_url (href l) = Inr u
         \<and> strip_fragment hok u = Inr k"
proof -
  from assms obtain link where "link \<in> set links"
    and "in_scope_candidate hok start_url base link = Some (k, l, u)"
    unfolding in_scope_candidates_def set_map_filter_iff by blast
  then show ?thesis using in_scope_candidate_SomeD by blast
qed

text \<open>
  Claim C1.  When the collector returns, its output is the list of first occurrences,
  in document order, of the in-scope candidates, keyed by fragment-stripped URL: no
  two entries of the output have the same fragment-stripped URL, and every entry comes
  from an anchor of the element, holds the URL that anchor resolves to, and has a
  fragment-stripped URL that starts with the scope prefix.
\<close>

theorem collect_links_first_occurrence:
  assumes "collect_links hok start_url base [] links = Inr m"
  shows "m = first_occurrences (in_scope_candidates hok start_url base links)
         \<and> filtered_links_info m
             = map snd (first_occurrences (in_scope_candidates hok start_url base links))
         \<and> distinct (map (\<lambda>(link, link_url). strip_fragment hok link_url) (filtered_links_info m))
         \<and> (\<forall>(link, link_url) \<in> set (filtered_links_info m).
               link \<in> set links \<and> urljoin hok start_url (href link) = Inr link_url
               \<and> (\<exists>k. strip_fragment hok link_url = Inr k \<and> startswith k base))"
proof -
  let ?cs = "in_scope_candidates hok start_url base links"
  from assms have d: "m = dedup_into [] ?cs" by (rule collect_links_dedup)
  then have 1: "m = first_occurrences ?cs"
    by (simp add: dedup_into_index first_occurrences_def)
  have sub: "set m \<subseteq> set ?cs" using dedup_into_set[of "[]" ?cs] d by simp
  have el: "l \<in> set links \<and> startswith k base \<and> urljoin hok start_url (href l) = Inr u
            \<and> strip_fragment hok u = Inr k" if "(k, l, u) \<in> set m" for k l u
    using that sub in_scope_candidates_D by blast
  have dk: "distinct (map fst m)" unfolding d by (rule dedup_into_distinct) simp
  have "map (\<lambda>(link, link_url). strip_fragment hok link_url) (filtered_links_info m)
        = map (\<lambda>e. Inr (fst e)) m"
    unfolding filtered_links_info_def map_map
    by (rule map_cong) (use el in auto)
  also have "\<dots> = map Inr (map fst m)" by simp
  finally have eq: "map (\<lambda>(link, link_url). strip_fragment hok link_url) (filtered_links_info m)
        = map Inr (map fst m)" .
  have 3: "distinct (map (\<lambda>(link, link_url). strip_fragment hok link_url) (filtered_links_info m))"
    unfolding eq distinct_map[of Inr "map fst m"] using dk by (simp add: inj_on_def)
  have 4: "\<forall>(link, link_url) \<in> set (filtered_links_info m).
               link \<in> set links \<and> urljoin hok start_url (href link) = Inr link_url
               \<and> (\<exists>k. strip_fragment hok link_url = Inr k \<and> startswith k base)"
    unfolding filtered_links_info_def using el by fastforce
  from 1 have 2: "filtered_links_info m = map snd (first_occurrences ?cs)"
    by (simp only: filtered_links_info_def)
  show ?thesis
  proof (intro conjI)
    show "m = first_occurrences ?cs" by (rule 1)
    show "filtered_links_info m = map snd (first_occurrences ?cs)" by (rule 2)
    show "distinct (map (\<lambda>(link, link_url). strip_fragment hok link_url) (filtered_links_info m))"
      by (rule 3)
    show "\<forall>(link, link_url) \<in> set (filtered_links_info m).
               link \<in> set links \<and> urljoin hok start_url (href link) = Inr link_url
               \<and> (\<exists>k. strip_fragment hok link_url = Inr k \<and> startswith k base)"
      by (rule 4)
  qed
qed

section \<open>Scenario A\<close>

lemma scenario_A_scope:
  "parent_url_base hok ''https://ex.com/docs/index.html'' = Inr ''https://ex.com/docs/''"
  by code_simp

lemma scenario_A_collect:
  "collect_links hok ''https://ex.com/docs/index.html'' ''https://ex.com/docs/'' []
     (scenario_A_anchors txt) =
   Inr [(''https://ex.com/docs/a.html'',
          (\<lparr>href = ''/docs/a.html'', get_text = txt ''/docs/a.html''\<rparr>,
           ''https://ex.com/docs/a.html'')),
        (''https://ex.com/docs/b.html'',
          (\<lparr>href = ''/docs/b.html#sec'', get_text = txt ''/docs/b.html#sec''\<rparr>,
           ''https://ex.com/docs/b.html#sec''))]"
  by code_simp

lemma scenario_dup_collect:
  "collect_links (\<lambda>_. True) ''https://ex.com/docs/index.html'' ''https://ex.com/docs/'' []
     scenario_dup_anchors =
   Inr [(''https://ex.com/docs/a.html'',
          (\<lparr>href = ''/docs/a.html'', get_text = ''first''\<rparr>, ''https://ex.com/docs/a.html'')),
        (''https://ex.com/docs/b.html'',
          (\<lparr>href = ''b.html#sec'', get_text = ''B''\<rparr>, ''https://ex.com/docs/b.html#sec''))]"
  by code_simp

text \<open>
  The theorem of claim C1 at a list of five anchors, where the fifth repeats the page
  of the first under another fragment.
\<close>

theorem collect_links_first_occurrence_witness:
  "collect_links (\<lambda>_. True) ''https://ex.com/docs/index.html'' ''https://ex.com/docs/'' []
     scenario_dup_anchors =
   Inr [(''https://ex.com/docs/a.html'',
          (\<lparr>href = ''/docs/a.html'', get_text = ''first''\<rparr>, ''https://ex.com/docs/a.html'')),
        (''https://ex.com/docs/b.html'',
          (\<lparr>href = ''b.html#sec'', get_text = ''B''\<rparr>, ''https://ex.com/docs/b.html#sec''))]
   \<and> first_occurrences (in_scope_candidates (\<lambda>_. True) ''https://ex.com/docs/index.html''
          ''https://ex.com/docs/'' scenario_dup_anchors) =
       [(''https://ex.com/docs/a.html'',
          (\<lparr>href = ''/docs/a.html'', get_text = ''first''\<rparr>, ''https://ex.com/docs/a.html'')),
        (''https://ex.com/docs/b.html'',
          (\<lparr>href = ''b.html#sec'', get_text = ''B''\<rparr>, ''https://ex.com/docs/b.html#sec''))]"
  using collect_links_first_occurrence[OF scenario_dup_collect] scenario_dup_collect
  by simp

text \<open>
  Claim C2, as amended.  Scenario A: for the start URL
  \<^verbatim>\<open>https://ex.com/docs/index.html\<close> the scope is \<^verbatim>\<open>https://ex.com/docs/\<close>; of the four
  anchors the collector keeps those of \<^verbatim>\<open>a.html\<close> and \<^verbatim>\<open>b.html\<close>, in that order, and
  drops \<^verbatim>\<open>c.html\<close> and the external link.  The fragment is stripped in the keys of the
  dictionary only: the list handed on to the fetching loop holds the URL of \<^verbatim>\<open>b.html\<close>
  with its fragment.
\<close>

theorem scenario_A_collected:
  "parent_url_base hok ''https://ex.com/docs/index.html'' = Inr ''https://ex.com/docs/''
   \<and> map_sum id (map fst)
         (collect_links hok ''https://ex.com/docs/index.html'' ''https://ex.com/docs/'' []
            (scenario_A_anchors txt))
       = Inr [''https://ex.com/docs/a.html'', ''https://ex.com/docs/b.html'']
   \<and> map_sum id filtered_links_info
         (collect_links hok ''https://ex.com/docs/index.html'' ''https://ex.com/docs/'' []
            (scenario_A_anchors txt))
       = Inr [(\<lparr>href = ''/docs/a.html'', get_text = txt ''/docs/a.html''\<rparr>,
               ''https://ex.com/docs/a.html''),
              (\<lparr>href = ''/docs/b.html#sec'', get_text = txt ''/docs/b.html#sec''\<rparr>,
               ''https://ex.com/docs/b.html#sec'')]"
  using scenario_A_scope[of hok] scenario_A_collect[of hok "txt"]
  by (simp add: filtered_links_info_def)

text \<open>Scenario A with every bracketed host accepted and empty anchor texts.\<close>

theorem scenario_A_collected_witness:
  "parent_url_base (\<lambda>_. True) ''https://ex.com/docs/index.html'' = Inr ''https://ex.com/docs/''
   \<and> map_sum id (map fst)
         (collect_links (\<lambda>_. True) ''https://ex.com/docs/index.html'' ''https://ex.com/docs/'' []
            (scenario_A_anchors (\<lambda>_. [])))
       = Inr [''https://ex.com/docs/a.html'', ''https://ex.com/docs/b.html'']"
  using scenario_A_collected[of "\<lambda>_. True" "\<lambda>_. []"] by simp

text \<open>
  Claim C2 as stated fails: the in-scope links that the collector returns in
  Scenario A are \<^verbatim>\<open>a.html\<close> and \<^verbatim>\<open>b.html#sec\<close>, not \<^verbatim>\<open>a.html\<close> and \<^verbatim>\<open>b.html\<close>.
\<close>

theorem scenario_A_fragment_kept:
  "map_sum id (map snd \<circ> filtered_links_info)
     (collect_links (\<lambda>_. True) ''https://ex.com/docs/index.html'' ''https://ex.com/docs/'' []
        (scenario_A_anchors (\<lambda>_. [])))
     = Inr [''https://ex.com/docs/a.html'', ''https://ex.com/docs/b.html#sec'']
   \<and> map_sum id (map snd \<circ> filtered_links_info)
     (collect_links (\<lambda>_. True) ''https://ex.com/docs/index.html'' ''https://ex.com/docs/'' []
        (scenario_A_anchors (\<lambda>_. [])))
     \<noteq> Inr [''https://ex.com/docs/a.html'', ''https://ex.com/docs/b.html'']"
  using scenario_A_collect[of "\<lambda>_. True" "\<lambda>_. []"]
  by (simp add: filtered_links_info_def)

section \<open>Unique file names\<close>

lemma unique_loop_inv:
  "unique_loop E d orig fn mf c = (fn', mf', c') \<Longrightarrow>
     mf' \<notin> set E \<and> c \<le> c'
     \<and> (if c' = c then fn' = fn \<and> mf' = mf
         else fn' = orig @ ''_'' @ str_nat (c' - 1) \<and> mf' = candidate d orig (c' - 1)
              \<and> mf \<in> set E \<and> (\<forall>k. c \<le> k \<and> k < c' - 1 \<longrightarrow> candidate d orig k \<in> set E))"
proof (induction E d orig fn mf c rule: unique_loop.induct)
  case (1 E d orig fn mf c)
  show ?case
  proof (cases "mf \<in> set E")
    case False
    with "1.prems" show ?thesis by (simp add: unique_loop.simps[of E d orig fn mf c])
  next
    case True
    with "1.prems" have r: "unique_loop E d orig (orig @ ''_'' @ str_nat c) (candidate d orig c) (c + 1)
        = (fn', mf', c')"
      by (simp add: unique_loop.simps[of E d orig fn mf c])
    note ih = "1.IH"[OF True r]
    from ih have le: "c + 1 \<le> c'" by simp
    show ?thesis
    proof (cases "c' = c + 1")
      case eq: True
      with ih True show ?thesis by auto
    next
      case False
      with ih le True have a: "fn' = orig @ ''_'' @ str_nat (c' - 1)" "mf' = candidate d orig (c' - 1)"
        "candidate d orig c \<in> set E" "\<forall>k. c + 1 \<le> k \<and> k < c' - 1 \<longrightarrow> candidate d orig k \<in> set E"
        "mf' \<notin> set E"
        by auto
      have "candidate d orig k \<in> set E" if "c \<le> k" "k < c' - 1" for k
      proof (cases "k = c")
        case True then show ?thesis using a(3) by simp
      next
        case False
        with that have "c + 1 \<le> k \<and> k < c' - 1" by simp
        with a(4) show ?thesis by blast
      qed
      with a le True False show ?thesis by simp
    qed
  qed
qed

lemma unique_loop_passes:
  "mf \<in> set E \<Longrightarrow> c \<le> n \<Longrightarrow> (\<forall>k. c \<le> k \<and> k < n \<longrightarrow> candidate d orig k \<in> set E) \<Longrightarrow>
     n < snd (snd (unique_loop E d orig fn mf c))"
proof (induction E d orig fn mf c rule: unique_loop.induct)
  case (1 E d orig fn mf c)
  have step: "unique_loop E d orig fn mf c
      = unique_loop E d orig (orig @ ''_'' @ str_nat c) (candidate d orig c) (c + 1)"
    using "1.prems"(1) by (simp add: unique_loop.simps[of E d orig fn mf c])
  show ?case
  proof (cases "c = n")
    case True
    obtain fn' mf' c' where r: "unique_loop E d orig (orig @ ''_'' @ str_nat c) (candidate d orig c) (c + 1)
       = (fn', mf', c')" by (cases "unique_loop E d orig (orig @ ''_'' @ str_nat c) (candidate d orig c) (c + 1)") auto
    from unique_loop_inv[OF r] have "c + 1 \<le> c'" by simp
    with True r step show ?thesis by simp
  next
    case False
    with "1.prems" have lt: "c < n" by simp
    with "1.prems" have ce: "candidate d orig c \<in> set E" by simp
    have "n < snd (snd (unique_loop E d orig (orig @ ''_'' @ str_nat c) (candidate d orig c) (c + 1)))"
      using "1.prems"(1) ce lt "1.prems"(3) by (intro "1.IH") auto
    with step show ?thesis by simp
  qed
qed

lemma unique_loop_agree:
  "(mf \<in> set E) = (mf \<in> set E') \<Longrightarrow>
   (\<forall>k. c \<le> k \<longrightarrow> (candidate d orig k \<in> set E) = (candidate d orig k \<in> set E')) \<Longrightarrow>
   unique_loop E d orig fn mf c = unique_loop E' d orig fn mf c"
proof (induction E d orig fn mf c rule: unique_loop.induct)
  case (1 E d orig fn mf c)
  show ?case
  proof (cases "mf \<in> set E")
    case False
    with "1.prems" show ?thesis
      by (simp add: unique_loop.simps[of E d orig fn mf c] unique_loop.simps[of E' d orig fn mf c])
  next
    case True
    have "unique_loop E d orig (orig @ ''_'' @ str_nat c) (candidate d orig c) (c + 1)
        = unique_loop E' d orig (orig @ ''_'' @ str_nat c) (candidate d orig c) (c + 1)"
      using True "1.prems" by (intro "1.IH") auto
    with True "1.prems"(1) show ?thesis
      by (simp add: unique_loop.simps[of E d orig fn mf c] unique_loop.simps[of E' d orig fn mf c])
  qed
qed


lemma makedirs_files: "makedirs w d = Inr w' \<Longrightarrow> files w' = files w"
  by (auto simp: makedirs_def split: if_splits)

lemma write_file_fresh:
  "p \<notin> set (map fst (files w)) \<Longrightarrow> prefix (files w) (files (write_file e w p md))"
  by (simp add: write_file_def)

lemma after_fetch_keeps_files:
  "prefix (files w) (files (snd (after_fetch e cfg base root_name link_tag u html w)))"
proof (cases "extract_main e html (main_content_selector cfg)")
  case None
  then show ?thesis by (simp add: after_fetch_def)
next
  case (Some main_html)
  note m = this
  show ?thesis
  proof (cases "urlparse (host_ok e) u []")
    case (Inl err)
    with m show ?thesis by (simp add: after_fetch_def)
  next
    case (Inr parsed)
    note pu = this
    let ?fnb = "if get_text link_tag \<noteq> [] then get_text link_tag
                else py_replace_char CHR ''.'' CHR ''_'' (basename (path parsed))"
    show ?thesis
    proof (cases "relpath (cwd e) (path parsed) base")
      case (Inl err)
      with m pu show ?thesis by (simp add: after_fetch_def Let_def)
    next
      case (Inr rel)
      note rp = this
      let ?fod = "file_output_dir (output_dir cfg) root_name rel"
      show ?thesis
      proof (cases "makedirs w ?fod")
        case (Inl err)
        with m pu rp show ?thesis by (simp add: after_fetch_def Let_def)
      next
        case (Inr w')
        note mk = this
        obtain fn p c where un: "unique_name (existing_paths w') ?fod (sanitize ?fnb) = (fn, p, c)"
          by (cases "unique_name (existing_paths w') ?fod (sanitize ?fnb)") auto
        then have "p \<notin> set (existing_paths w')"
          unfolding unique_name_def using unique_loop_inv by blast
        then have "p \<notin> set (map fst (files w'))" by (simp add: existing_paths_def)
        then have "prefix (files w') (files (write_file e w' p (html2text e main_html)))"
          by (rule write_file_fresh)
        moreover have "files w' = files w" using mk by (rule makedirs_files)
        moreover have "after_fetch e cfg base root_name link_tag u html w
                       = (None, write_file e w' p (html2text e main_html))"
          using m pu rp mk un by (simp add: after_fetch_def Let_def)
        ultimately show ?thesis by simp
      qed
    qed
  qed
qed

text \<open>
  Claim C8.  The uniqueness step returns a path that does not exist; the name is the
  stem itself when \<^verbatim>\<open>stem.md\<close> is free, and otherwise the stem with the least suffix
  \<^verbatim>\<open>_k\<close>, \<open>k \<ge> 1\<close>, whose name is free, all names before it being taken.  Once the
  returned path exists, the next call for the same stem and directory ends with a
  larger counter.  The result depends only on which of the names tried in the target
  directory exist.  Processing a fetched page leaves every file that existed before
  with its content.
\<close>

theorem unique_name_never_overwrites:
  assumes "unique_name E d s = (fn, p, c)"
  shows "p \<notin> set E \<and> p = path_join d (fn @ ''.md'') \<and> 1 \<le> c
         \<and> (if c = 1 then fn = s
             else fn = s @ ''_'' @ str_nat (c - 1) \<and> path_join d (s @ ''.md'') \<in> set E
                  \<and> (\<forall>k. 1 \<le> k \<and> k < c - 1 \<longrightarrow> candidate d s k \<in> set E))
         \<and> c < snd (snd (unique_name (p # E) d s))
         \<and> (\<forall>E'. (path_join d (s @ ''.md'') \<in> set E') = (path_join d (s @ ''.md'') \<in> set E)
                  \<and> (\<forall>k. (candidate d s k \<in> set E') = (candidate d s k \<in> set E))
                \<longrightarrow> unique_name E' d s = (fn, p, c))
         \<and> prefix (files w) (files (snd (after_fetch e cfg base root_name link_tag u html w)))"
proof -
  let ?m = "path_join d (s @ ''.md'')"
  from assms have r: "unique_loop E d s s ?m 1 = (fn, p, c)" by (simp add: unique_name_def)
  note inv = unique_loop_inv[OF r]
  from inv have 1: "p \<notin> set E" and 3: "1 \<le> c" by simp_all
  have 4: "if c = 1 then fn = s
           else fn = s @ ''_'' @ str_nat (c - 1) \<and> ?m \<in> set E
                \<and> (\<forall>k. 1 \<le> k \<and> k < c - 1 \<longrightarrow> candidate d s k \<in> set E)"
    using inv by (cases "c = 1") auto
  have pe: "p = (if c = 1 then ?m else candidate d s (c - 1))"
    using inv by (cases "c = 1") auto
  have 2: "p = path_join d (fn @ ''.md'')"
    using pe 4 by (cases "c = 1") (auto simp: candidate_def)
  have 5: "c < snd (snd (unique_name (p # E) d s))"
    unfolding unique_name_def
  proof (rule unique_loop_passes)
    show "?m \<in> set (p # E)" using pe 4 by (cases "c = 1") auto
    show "1 \<le> c" by (rule 3)
    show "\<forall>k. 1 \<le> k \<and> k < c \<longrightarrow> candidate d s k \<in> set (p # E)"
    proof (intro allI impI)
      fix k assume k: "1 \<le> k \<and> k < c"
      then have c1: "c \<noteq> 1" by simp
      show "candidate d s k \<in> set (p # E)"
      proof (cases "k = c - 1")
        case True
        with pe c1 show ?thesis by simp
      next
        case False
        with k have "1 \<le> k \<and> k < c - 1" by arith
        with 4 c1 show ?thesis by simp
      qed
    qed
  qed
  have 6: "\<forall>E'. (?m \<in> set E') = (?m \<in> set E)
                  \<and> (\<forall>k. (candidate d s k \<in> set E') = (candidate d s k \<in> set E))
                \<longrightarrow> unique_name E' d s = (fn, p, c)"
  proof (intro allI impI)
    fix E'
    assume a: "(?m \<in> set E') = (?m \<in> set E)
                  \<and> (\<forall>k. (candidate d s k \<in> set E') = (candidate d s k \<in> set E))"
    have "unique_loop E' d s s ?m 1 = unique_loop E d s s ?m 1"
      by (rule unique_loop_agree) (use a in auto)
    with r show "unique_name E' d s = (fn, p, c)" by (simp add: unique_name_def)
  qed
  from 1 2 3 4 5 6 after_fetch_keeps_files show ?thesis by blast
qed


lemma unique_intro_1:
  "unique_name [''output_markdowns/docs/intro.md'', ''output_markdowns'', ''output_markdowns/docs'',
                ''output_markdowns/docs/''] ''output_markdowns/docs/'' ''intro''
     = (''intro_1'', ''output_markdowns/docs/intro_1.md'', 2)"
  by code_simp

lemma urlparse_start_html:
  "urlparse (\<lambda>_. True) ''https://ex.com/docs/start.html'' [] =
     Inr \<lparr>scheme = ''https'', netloc = ''ex.com'', path = ''/docs/start.html'', params = [],
          query = [], fragment = []\<rparr>"
  by code_simp

lemma relpath_start_html: "relpath ''/home/user'' ''/docs/start.html'' ''/docs/'' = Inr ''start.html''"
  by code_simp

lemma sanitize_intro: "sanitize ''intro'' = ''intro''"
  by code_simp

lemma file_output_dir_docs:
  "file_output_dir ''output_markdowns'' ''docs'' ''start.html'' = ''output_markdowns/docs/''"
  by code_simp

lemma makedirs_E:
  "makedirs scenario_E_world ''output_markdowns/docs/'' = Inr scenario_E_world"
  by code_simp

lemma scenario_E_second_link:
  "after_fetch (scenario_env []) scenario_cfg ''/docs/'' ''docs''
     \<lparr>href = ''start.html'', get_text = ''intro''\<rparr> ''https://ex.com/docs/start.html'' [66]
     scenario_E_world
   = (None, scenario_E_world
        \<lparr>files := [(''output_markdowns/docs/intro.md'', [65]),
                   (''output_markdowns/docs/intro_1.md'', [66])],
         log := [Saved ''output_markdowns/docs/intro.md'',
                 Saved ''output_markdowns/docs/intro_1.md'']\<rparr>)"
proof -
  have ex: "existing_paths scenario_E_world =
      [''output_markdowns/docs/intro.md'', ''output_markdowns'', ''output_markdowns/docs'',
       ''output_markdowns/docs/'']"
    by (simp add: existing_paths_def scenario_E_world_def)
  have wr: "write_file (scenario_env []) scenario_E_world ''output_markdowns/docs/intro_1.md'' [66]
     = scenario_E_world
        \<lparr>files := [(''output_markdowns/docs/intro.md'', [65]),
                   (''output_markdowns/docs/intro_1.md'', [66])],
         log := [Saved ''output_markdowns/docs/intro.md'',
                 Saved ''output_markdowns/docs/intro_1.md'']\<rparr>"
    by (simp add: write_file_def scenario_env_def scenario_E_world_def)
  have e: "host_ok (scenario_env []) = (\<lambda>_. True)" "cwd (scenario_env []) = ''/home/user''"
    "extract_main (scenario_env []) [66] None = Some [66]" "html2text (scenario_env []) [66] = [66]"
    "main_content_selector scenario_cfg = None" "output_dir scenario_cfg = ''output_markdowns''"
    by (simp_all add: scenario_env_def scenario_cfg_def)
  show ?thesis
    unfolding after_fetch_def
    by (simp add: e Let_def urlparse_start_html relpath_start_html sanitize_intro
          file_output_dir_docs makedirs_E ex unique_intro_1 wr)
qed

text \<open>
  Scenario E: \<^verbatim>\<open>intro.md\<close> exists, a second link with the stem \<^verbatim>\<open>intro\<close> is written
  to \<^verbatim>\<open>intro_1.md\<close>, and both files are there afterwards.
\<close>

theorem unique_name_never_overwrites_witness:
  "unique_name (existing_paths scenario_E_world) ''output_markdowns/docs/'' ''intro''
     = (''intro_1'', ''output_markdowns/docs/intro_1.md'', 2)
   \<and> ''output_markdowns/docs/intro_1.md'' \<notin> set (existing_paths scenario_E_world)
   \<and> 2 < snd (snd (unique_name (''output_markdowns/docs/intro_1.md'' # existing_paths scenario_E_world)
                     ''output_markdowns/docs/'' ''intro''))
   \<and> files (snd (after_fetch (scenario_env []) scenario_cfg ''/docs/'' ''docs''
                  \<lparr>href = ''start.html'', get_text = ''intro''\<rparr>
                  ''https://ex.com/docs/start.html'' [66] scenario_E_world))
       = [(''output_markdowns/docs/intro.md'', [65]), (''output_markdowns/docs/intro_1.md'', [66])]
   \<and> prefix (files scenario_E_world)
        (files (snd (after_fetch (scenario_env []) scenario_cfg ''/docs/'' ''docs''
                  \<lparr>href = ''start.html'', get_text = ''intro''\<rparr>
                  ''https://ex.com/docs/start.html'' [66] scenario_E_world)))"
proof -
  have ex: "existing_paths scenario_E_world =
      [''output_markdowns/docs/intro.md'', ''output_markdowns'', ''output_markdowns/docs'',
       ''output_markdowns/docs/'']"
    by (simp add: existing_paths_def scenario_E_world_def)
  have u: "unique_name (existing_paths scenario_E_world) ''output_markdowns/docs/'' ''intro''
     = (''intro_1'', ''output_markdowns/docs/intro_1.md'', 2)"
    unfolding ex by (rule unique_intro_1)
  note t = unique_name_never_overwrites[OF u, of scenario_E_world "scenario_env []" scenario_cfg
         "''/docs/''" "''docs''" "\<lparr>href = ''start.html'', get_text = ''intro''\<rparr>"
         "''https://ex.com/docs/start.html''" "[66]"]
  note t1 = t[THEN conjunct1]
  note t5 = t[THEN conjunct2, THEN conjunct2, THEN conjunct2, THEN conjunct2, THEN conjunct1]
  note t7 = t[THEN conjunct2, THEN conjunct2, THEN conjunct2, THEN conjunct2, THEN conjunct2,
              THEN conjunct2]
  have f: "files (snd (after_fetch (scenario_env []) scenario_cfg ''/docs/'' ''docs''
                  \<lparr>href = ''start.html'', get_text = ''intro''\<rparr>
                  ''https://ex.com/docs/start.html'' [66] scenario_E_world))
       = [(''output_markdowns/docs/intro.md'', [65]), (''output_markdowns/docs/intro_1.md'', [66])]"
    by (simp add: scenario_E_second_link)
  from u t1 t5 f t7 show ?thesis by (intro conjI)
qed

section \<open>A link whose path leaves the base directory\<close>

text \<open>
  The scope test of line 108 compares strings.  \<^verbatim>\<open>urljoin\<close> does not remove the
  segments \<^verbatim>\<open>..\<close> of a reference that has a host of its own, so such a link passes
  the test while its normalized path lies outside the base directory.
\<close>

lemma escape_collect:
  "collect_links (\<lambda>_. True) ''https://ex.com/a/b/index.html'' ''https://ex.com/a/b/'' []
     [\<lparr>href = ''https://ex.com/a/b/../../x/y.html'', get_text = ''Y''\<rparr>]
   = Inr [(''https://ex.com/a/b/../../x/y.html'',
           (\<lparr>href = ''https://ex.com/a/b/../../x/y.html'', get_text = ''Y''\<rparr>,
            ''https://ex.com/a/b/../../x/y.html''))]"
  by code_simp

lemma escape_scope:
  "parent_url_base (\<lambda>_. True) ''https://ex.com/a/b/index.html'' = Inr ''https://ex.com/a/b/''"
  by code_simp

lemma escape_base: "base_path_for_relative (\<lambda>_. True) ''https://ex.com/a/b/index.html'' = Inr ''/a/b/''"
  by code_simp

lemma escape_path:
  "map_sum id path (urlparse (\<lambda>_. True) ''https://ex.com/a/b/../../x/y.html'' [])
     = Inr ''/a/b/../../x/y.html''"
  by code_simp

lemma escape_relpath:
  "relpath ''/home/user'' ''/a/b/../../x/y.html'' ''/a/b/'' = Inr ''../../x/y.html''"
  by code_simp

lemma escape_dir:
  "file_output_dir ''output_markdowns'' (output_root_name ''/a/b/'') ''../../x/y.html''
     = ''output_markdowns/b/../../x''
   \<and> normpath ''output_markdowns/b/../../x'' = ''x''"
  by code_simp

text \<open>
  Claim C10 at the start URL \<^verbatim>\<open>https://ex.com/a/b/index.html\<close> and the anchor
  \<^verbatim>\<open>https://ex.com/a/b/../../x/y.html\<close>: the link is collected, its path starts with
  the base path \<^verbatim>\<open>/a/b/\<close>, \<^verbatim>\<open>relpath\<close> does not raise, and the relative path is
  \<^verbatim>\<open>../../x/y.html\<close>, so the output directory is \<^verbatim>\<open>output_markdowns/b/../../x\<close>,
  which is the directory \<^verbatim>\<open>x\<close> beside the output directory.
\<close>

theorem relpath_escapes_base:
  "parent_url_base (\<lambda>_. True) ''https://ex.com/a/b/index.html'' = Inr ''https://ex.com/a/b/''
   \<and> map_sum id filtered_links_info
         (collect_links (\<lambda>_. True) ''https://ex.com/a/b/index.html'' ''https://ex.com/a/b/'' []
            [\<lparr>href = ''https://ex.com/a/b/../../x/y.html'', get_text = ''Y''\<rparr>])
       = Inr [(\<lparr>href = ''https://ex.com/a/b/../../x/y.html'', get_text = ''Y''\<rparr>,
               ''https://ex.com/a/b/../../x/y.html'')]
   \<and> base_path_for_relative (\<lambda>_. True) ''https://ex.com/a/b/index.html'' = Inr ''/a/b/''
   \<and> map_sum id path (urlparse (\<lambda>_. True) ''https://ex.com/a/b/../../x/y.html'' [])
       = Inr ''/a/b/../../x/y.html''
   \<and> startswith ''/a/b/../../x/y.html'' ''/a/b/''
   \<and> relpath ''/home/user'' ''/a/b/../../x/y.html'' ''/a/b/'' = Inr ''../../x/y.html''
   \<and> file_output_dir ''output_markdowns'' (output_root_name ''/a/b/'') ''../../x/y.html''
       = ''output_markdowns/b/../../x''
   \<and> normpath ''output_markdowns/b/../../x'' = ''x''"
  using escape_scope escape_collect escape_base escape_path escape_relpath escape_dir
  by (simp add: filtered_links_info_def startswith_def)

section \<open>Decoding\<close>














section \<open>The retry loop\<close>
















end
